theory Spec2Isabelle
  imports Main "HOL-Library.Word"
begin

unbundle bit_operations_syntax

section \<open>The web implementation of the node-web compatibility layer\<close>

text \<open>
  A shallow embedding of \<^verbatim>\<open>src/node-web-compat-web.ts\<close>. Strings are HOL strings: a
  character stands for one UTF-16 code unit below 256 (so the line terminators U+2028
  and U+2029 have no counterpart here); a \<^verbatim>\<open>Uint8Array\<close> is a list of 8-bit words; a thrown
  exception or a rejected promise is the left summand of a sum type. The promise that
  \<^verbatim>\<open>fetch\<close> returns, which may also stay pending, has a datatype of its own.
\<close>

subsection \<open>Errors and platform values\<close>

type_synonym byte = "8 word"

text \<open>
  The four error classes the file imports from \<^verbatim>\<open>error.js\<close>, with their constructor
  arguments, the \<^verbatim>\<open>TypeError\<close> of the JavaScript runtime (a method call on \<^verbatim>\<open>null\<close>), and
  an exception raised inside a platform API, which the file passes on unchanged.
\<close>

datatype error =
    FetchError string string
  | NonRetryableFetchError string string
  | NotSupportedError string
  | JwtInvalidSignatureAlgorithmError string "string option"
  | TypeError
  | PlatformError string

text \<open>
  A JavaScript number, as far as the file looks at one: \<^verbatim>\<open>NaN\<close> or an integral value
  (time-outs in milliseconds, HTTP status codes).
\<close>

datatype js_number = NaN | Finite int

text \<open>
  The signal of the \<^verbatim>\<open>AbortController\<close> that \<^verbatim>\<open>fetch\<close> creates is a fresh object, distinct
  from every signal a caller can pass in: no options object of a caller holds it.
\<close>

datatype abort_signal = ControllerSignal | CallerSignal nat

datatype js_value =
    JUndefined
  | JNull
  | JBool bool
  | JNumber js_number
  | JString string
  | JSignal abort_signal
  | JArrayBuffer "byte list"

text \<open>\<^verbatim>\<open>Record<string, unknown>\<close>: the own properties of an options object.\<close>

type_synonym js_record = "string \<rightharpoonup> js_value"

datatype CryptoKey = CryptoKey nat

text \<open>
  Modelled from the spec: the type \<^verbatim>\<open>SignatureJwk\<close> is declared in \<^verbatim>\<open>jwk.js\<close>, which is not
  among the sources; its fields are those of a JWK in the spec's data model. The file
  reads \<^verbatim>\<open>alg\<close> and \<^verbatim>\<open>crv\<close> only.
\<close>

record SignatureJwk =
  kty :: string
  alg :: "string option"
  crv :: "string option"
  kid :: "string option"
  use :: "string option"
  rsa_n :: "string option"
  rsa_e :: "string option"
  ec_x :: "string option"
  ec_y :: "string option"

record CryptoKeyWithJwk =
  key :: CryptoKey
  jwk :: SignatureJwk

text \<open>
  An object literal is the list of its properties in source order; a property whose
  value is \<^verbatim>\<open>undefined\<close> holds \<open>None\<close>. The algorithm identifier given to
  \<^verbatim>\<open>crypto.subtle.importKey\<close> is such an object or, for EdDSA, the bare string \<^verbatim>\<open>jwk.crv\<close>.
\<close>

type_synonym js_object = "(string \<times> string option) list"

datatype alg_identifier = AlgObject js_object | AlgString "string option"

text \<open>
  What lies outside the file and is taken as given:
  \<^item> \<^verbatim>\<open>crypto.subtle.importKey\<close> and \<^verbatim>\<open>crypto.subtle.verify\<close> (a rejected promise is \<open>Inl\<close>);
  \<^item> \<^verbatim>\<open>TextEncoder.encode\<close>;
  \<^item> the conversion of a string to a number that \<^verbatim>\<open>Number()\<close> applies;
  \<^item> what a number beyond the safe integers prints as (rounded digits, and the exponent
    form from \<open>10\<^sup>2\<^sup>1\<close> on);
  \<^item> the \<^verbatim>\<open>message\<close> property of an error (that of the classes of \<^verbatim>\<open>error.js\<close> is set by
    their constructors, which are not among the sources);
  \<^item> the value with which a pending \<^verbatim>\<open>fetch\<close> or body read rejects once its signal is
    aborted with a given reason: the reason itself on a platform that hands it on, an
    \<^verbatim>\<open>AbortError\<close> on one that does not.
\<close>

record platform =
  importKey :: "string \<Rightarrow> SignatureJwk \<Rightarrow> alg_identifier \<Rightarrow> bool \<Rightarrow> string list \<Rightarrow> error + CryptoKey"
  verify :: "js_object \<Rightarrow> CryptoKey \<Rightarrow> byte list \<Rightarrow> byte list \<Rightarrow> error + bool"
  TextEncoder_encode :: "string \<Rightarrow> byte list"
  StringToNumber :: "string \<Rightarrow> js_number"
  unsafe_integer_string :: "int \<Rightarrow> string"
  message_of :: "error \<Rightarrow> string"
  rejection_of_abort :: "error \<Rightarrow> error"

subsection \<open>Numbers\<close>

text \<open>\<^verbatim>\<open>Number(v)\<close>; an object without a numeric primitive value converts to \<^verbatim>\<open>NaN\<close>.\<close>

fun Number :: "platform \<Rightarrow> js_value \<Rightarrow> js_number" where
  "Number p JUndefined = NaN"
| "Number p JNull = Finite 0"
| "Number p (JBool b) = Finite (if b then 1 else 0)"
| "Number p (JNumber n) = n"
| "Number p (JString s) = StringToNumber p s"
| "Number p (JSignal s) = NaN"
| "Number p (JArrayBuffer b) = NaN"

text \<open>The truth value of a number in a condition: \<^verbatim>\<open>NaN\<close> and 0 are false.\<close>

fun truthy :: "js_number \<Rightarrow> bool" where
  "truthy NaN = False"
| "truthy (Finite n) = (n \<noteq> 0)"

text \<open>The decimal digits of a natural number, most significant first.\<close>

function digits :: "nat \<Rightarrow> string" where
  "digits n =
     (if n < 10 then [''0123456789'' ! n]
      else digits (n div 10) @ [''0123456789'' ! (n mod 10)])"
  by pat_completeness auto
termination
  by (relation "measure id") auto

text \<open>
  A number inside a template literal. A safe integer (below \<open>2\<^sup>5\<^sup>3\<close> in magnitude) prints as
  its decimal digits; what a larger one prints as is the platform's.
\<close>

fun NumberToString :: "platform \<Rightarrow> js_number \<Rightarrow> string" where
  "NumberToString p NaN = ''NaN''"
| "NumberToString p (Finite n) =
     (if \<bar>n\<bar> < 2 ^ 53 then (if n < 0 then ''-'' @ digits (nat (- n)) else digits (nat n))
      else unsafe_integer_string p n)"

subsection \<open>fetch\<close>

text \<open>
  A step of the request that the platform carries out (the \<^verbatim>\<open>fetch\<close> itself, the reading
  of the body) settles, if the timer of the call does not abort it, either before that
  timer fires or only after it. Where the call has no timer the two are the same.
\<close>

datatype arrival = InTime | Late

text \<open>
  What such a step does when it is not aborted: its promise stays pending, rejects
  with an error, or fulfils with a value.
\<close>

datatype 'a settles = NeverSettles | Rejects arrival error | Fulfils arrival 'a

text \<open>
  A response: its status, and what reading its body with \<^verbatim>\<open>arrayBuffer()\<close> does.
\<close>

record Response =
  status :: int
  arrayBuffer :: "byte list settles"

type_synonym transport = "Response settles"

datatype 'a promise = Pending | Rejected error | Fulfilled 'a

text \<open>
  \<^verbatim>\<open>setTimeout(() => abort.abort(reason), delay)\<close>: the timer, once it fires, aborts the
  controller whose signal is \<open>ControllerSignal\<close>, with the given reason.
\<close>

record abort_timer =
  delay :: js_number
  reason :: error

text \<open>
  The reason with which the signal of the request is aborted when the timer fires:
  there is one only if the options the platform's \<^verbatim>\<open>fetch\<close> was given hold the signal of
  the timer's controller. A signal of the caller's is one the caller leaves alone.
\<close>

definition aborts :: "abort_timer option \<Rightarrow> js_record \<Rightarrow> error option" where
  "aborts tm options =
     (case tm of
        None \<Rightarrow> None
      | Some t \<Rightarrow>
          if options ''signal'' = Some (JSignal ControllerSignal) then Some (reason t) else None)"

text \<open>
  The state in which the promise of a step ends: a step that has settled when the
  signal is aborted keeps its result, any other rejects with what the platform makes
  of the reason.
\<close>

fun settle :: "platform \<Rightarrow> error option \<Rightarrow> 'a settles \<Rightarrow> 'a promise" where
  "settle p None NeverSettles = Pending"
| "settle p None (Rejects w e) = Rejected e"
| "settle p None (Fulfils w v) = Fulfilled v"
| "settle p (Some r) (Rejects InTime e) = Rejected e"
| "settle p (Some r) (Fulfils InTime v) = Fulfilled v"
| "settle p (Some r) s = Rejected (rejection_of_abort p r)"

text \<open>
  One call of \<^verbatim>\<open>fetch\<close>: the timer it installs (if any), the options object it hands to
  the platform's \<^verbatim>\<open>fetch\<close>, the state in which the promise of the platform's \<^verbatim>\<open>fetch\<close>
  ends, and the state in which the promise it returns ends.
\<close>

record fetch_call =
  timer :: "abort_timer option"
  init :: js_record
  fetched :: "Response promise"
  returned :: "byte list promise"

text \<open>\<^verbatim>\<open>requestOptions?.[name]\<close>\<close>

definition get_option :: "js_record option \<Rightarrow> string \<Rightarrow> js_value" where
  "get_option requestOptions name =
     (case requestOptions of
        None \<Rightarrow> JUndefined
      | Some ro \<Rightarrow> (case ro name of None \<Rightarrow> JUndefined | Some v \<Rightarrow> v))"

text \<open>\<^verbatim>\<open>{ ...requestOptions }\<close>: spreading \<^verbatim>\<open>undefined\<close> adds no property.\<close>

definition spread :: "js_record option \<Rightarrow> js_record" where
  "spread requestOptions = (case requestOptions of None \<Rightarrow> Map.empty | Some ro \<Rightarrow> ro)"

text \<open>
  The function awaits the platform's \<^verbatim>\<open>fetch\<close> with a \<^verbatim>\<open>catch\<close> that wraps a rejection, checks
  the status, and returns the promise of \<^verbatim>\<open>response.arrayBuffer()\<close> as it is, so that the
  returned promise ends as the reading of the body does.
\<close>

definition fetch ::
  "platform \<Rightarrow> string \<Rightarrow> js_record option \<Rightarrow> byte list option \<Rightarrow> transport \<Rightarrow> fetch_call" where
  "fetch p uri requestOptions data reply =
     (let responseTimeout = Number p (get_option requestOptions ''responseTimeout'');
          (tm, requestOptions) =
            (if truthy responseTimeout then
               (Some \<lparr>delay = responseTimeout,
                      reason = FetchError uri
                        (''Response time-out (after '' @ NumberToString p responseTimeout
                           @ '' ms.)'')\<rparr>,
                Some ([''signal'' \<mapsto> JSignal ControllerSignal] ++ spread requestOptions))
             else (None, requestOptions));
          options = (spread requestOptions)
                      (''body'' \<mapsto> (case data of None \<Rightarrow> JUndefined | Some d \<Rightarrow> JArrayBuffer d));
          response = settle p (aborts tm options) reply
      in \<lparr>timer = tm,
          init = options,
          fetched = response,
          returned =
            (case response of
               Pending \<Rightarrow> Pending
             | Rejected err \<Rightarrow> Rejected (FetchError uri (message_of p err))
             | Fulfilled r \<Rightarrow>
                 if status r \<noteq> 200 then
                   Rejected (NonRetryableFetchError uri
                     (''Status code is '' @ NumberToString p (Finite (status r))
                        @ '', expected 200''))
                 else settle p (aborts tm options) (arrayBuffer r))\<rparr>)"


record FetchTimeouts =
  response :: int

definition defaultFetchTimeouts :: FetchTimeouts where
  "defaultFetchTimeouts = \<lparr>response = 3000\<rparr>"

subsection \<open>Keys and signatures\<close>

text \<open>
  The string enum \<^verbatim>\<open>NamedCurvesWebCrypto\<close>, read with a key: a key that is no member gives
  \<^verbatim>\<open>undefined\<close>.
\<close>

definition NamedCurvesWebCrypto :: "string \<rightharpoonup> string" where
  "NamedCurvesWebCrypto =
     map_of [(''ES256'', ''P-256''), (''ES384'', ''P-384''), (''ES512'', ''P-521'')]"

text \<open>\<^verbatim>\<open>s.startsWith(pre)\<close>\<close>

definition startsWith :: "string \<Rightarrow> string \<Rightarrow> bool" where
  "startsWith s pre = (take (length pre) s = pre)"

text \<open>
  The two synchronous members take no parameter and throw; \<open>args\<close> stands for whatever
  a caller passes.
\<close>

definition transformJwkToKeyObjectSync :: "'a \<Rightarrow> error + 'b" where
  "transformJwkToKeyObjectSync args =
     Inl (NotSupportedError
       ''Synchronously transforming a JWK into a key object is not supported in the browser'')"

text \<open>\<^verbatim>\<open>jwk.alg ?? jwtHeaderAlg\<close>\<close>

definition effective_alg :: "SignatureJwk \<Rightarrow> string option \<Rightarrow> string option" where
  "effective_alg aJwk jwtHeaderAlg = (case alg aJwk of Some a \<Rightarrow> Some a | None \<Rightarrow> jwtHeaderAlg)"

definition algIdentifier :: "SignatureJwk \<Rightarrow> string \<Rightarrow> alg_identifier" where
  "algIdentifier aJwk a =
     (if startsWith a ''RS'' then
        AlgObject [(''name'', Some ''RSASSA-PKCS1-v1_5''), (''hash'', Some (''SHA-'' @ drop 2 a))]
      else if startsWith a ''ES'' then
        AlgObject [(''name'', Some ''ECDSA''), (''namedCurve'', NamedCurvesWebCrypto a)]
      else AlgString (crv aJwk))"

definition transformJwkToKeyObjectAsync ::
  "platform \<Rightarrow> SignatureJwk \<Rightarrow> string option \<Rightarrow> error + CryptoKeyWithJwk" where
  "transformJwkToKeyObjectAsync p aJwk jwtHeaderAlg =
     (case effective_alg aJwk jwtHeaderAlg of
        None \<Rightarrow>
          Inl (JwtInvalidSignatureAlgorithmError ''Missing alg on both JWK and JWT header'' None)
      | Some a \<Rightarrow>
          if a = [] then
            Inl (JwtInvalidSignatureAlgorithmError ''Missing alg on both JWK and JWT header''
                   (Some a))
          else
            (case importKey p ''jwk'' aJwk (algIdentifier aJwk a) False [''verify''] of
               Inl e \<Rightarrow> Inl e
             | Inr k \<Rightarrow> Inr \<lparr>key = k, jwk = aJwk\<rparr>))"

definition verifySignatureSync :: "'a \<Rightarrow> error + 'b" where
  "verifySignatureSync args =
     Inl (NotSupportedError
       ''Synchronously verifying a JWT signature is not supported in the browser'')"

subsection \<open>bufferFromBase64url\<close>

definition alphabet :: string where
  "alphabet = ''ABCDEFGHIJKLMNOPQRSTUVWXYZabcdefghijklmnopqrstuvwxyz0123456789-_''"

text \<open>\<^verbatim>\<open>s.charCodeAt(i)\<close>; \<open>None\<close> is the \<^verbatim>\<open>NaN\<close> of an index past the end.\<close>

definition charCodeAt :: "string \<Rightarrow> nat \<Rightarrow> nat option" where
  "charCodeAt s i = (if i < length s then Some (of_char (s ! i)) else None)"

text \<open>The object \<^verbatim>\<open>map\<close>: each character code of the alphabet mapped to its index.\<close>

definition b64map :: "nat \<rightharpoonup> nat" where
  "b64map =
     fold (\<lambda>(index, char) acc. acc(of_char char \<mapsto> index)) (enumerate 0 alphabet) Map.empty"

text \<open>\<^verbatim>\<open>map[code]\<close>; \<open>None\<close> is \<^verbatim>\<open>undefined\<close>, also for the key \<^verbatim>\<open>NaN\<close>.\<close>

definition map_get :: "nat option \<Rightarrow> nat option" where
  "map_get code = (case code of None \<Rightarrow> None | Some c \<Rightarrow> b64map c)"

text \<open>
  The operand of a bitwise operator is converted to a 32-bit integer, \<^verbatim>\<open>undefined\<close> to 0;
  a value stored in a \<^verbatim>\<open>Uint8Array\<close> is reduced modulo 256.
\<close>

definition ToInt32 :: "nat option \<Rightarrow> 32 word" where
  "ToInt32 v = (case v of None \<Rightarrow> 0 | Some n \<Rightarrow> of_nat n)"

definition ToUint8 :: "32 word \<Rightarrow> byte" where
  "ToUint8 w = ucast w"

text \<open>\<^verbatim>\<open>acc[i] = v\<close> on a typed array: a write past the end is ignored.\<close>

definition set_index :: "byte list \<Rightarrow> nat \<Rightarrow> 32 word \<Rightarrow> byte list" where
  "set_index acc i v = (if i < length acc then acc[i := ToUint8 v] else acc)"

text \<open>The three values the reducer computes from one chunk.\<close>

definition chunk_values :: "string \<Rightarrow> 32 word \<times> 32 word \<times> 32 word" where
  "chunk_values chunk =
     (let first = ToInt32 (map_get (charCodeAt chunk 0));
          second = ToInt32 (map_get (charCodeAt chunk 1));
          third = ToInt32 (map_get (charCodeAt chunk 2));
          fourth = ToInt32 (map_get (charCodeAt chunk 3))
      in (push_bit 2 first OR signed_drop_bit 4 second,
          push_bit 4 (second AND 15) OR signed_drop_bit 2 third,
          push_bit 6 (third AND 3) OR fourth))"

text \<open>The same three values as the bytes a \<^verbatim>\<open>Uint8Array\<close> holds once they are stored.\<close>

definition chunk_bytes :: "string \<Rightarrow> byte list" where
  "chunk_bytes chunk =
     (case chunk_values chunk of (v0, v1, v2) \<Rightarrow> [ToUint8 v0, ToUint8 v1, ToUint8 v2])"

definition reducer :: "byte list \<Rightarrow> string \<Rightarrow> nat \<Rightarrow> byte list" where
  "reducer acc chunk index =
     (case chunk_values chunk of
        (v0, v1, v2) \<Rightarrow>
          set_index (set_index (set_index acc (3 * index) v0) (3 * index + 1) v1)
            (3 * index + 2) v2)"

text \<open>The dot of a regular expression matches every code unit but a line terminator.\<close>

definition lineTerminator :: "char \<Rightarrow> bool" where
  "lineTerminator c = (c = CHR 0x0A \<or> c = CHR 0x0D)"

text \<open>
  \<^verbatim>\<open>s.match(/.{1,4}/g)\<close>: from left to right, the longest run of one to four characters the
  dot matches; a position where the dot does not match is skipped. The empty list is
  the \<^verbatim>\<open>null\<close> of a string with no match.
\<close>

function match_chunks :: "string \<Rightarrow> string list" where
  "match_chunks [] = []"
| "match_chunks (c # cs) =
     (if lineTerminator c then match_chunks cs
      else (let chunk = takeWhile (\<lambda>x. \<not> lineTerminator x) (take 4 (c # cs))
            in chunk # match_chunks (drop (length chunk) (c # cs))))"
  by pat_completeness auto
termination
  by (relation "measure length") (auto simp: Let_def)

text \<open>\<^verbatim>\<open>s.replace(/={1,2}$/, "")\<close>: one or two \<^verbatim>\<open>=\<close> at the very end are removed.\<close>

definition endsWith :: "string \<Rightarrow> string \<Rightarrow> bool" where
  "endsWith s suf = (length suf \<le> length s \<and> drop (length s - length suf) s = suf)"

definition strip_padding :: "string \<Rightarrow> string" where
  "strip_padding s =
     (if endsWith s ''=='' then take (length s - 2) s
      else if endsWith s ''='' then take (length s - 1) s
      else s)"

definition bufferFromBase64url :: "string \<Rightarrow> error + byte list" where
  "bufferFromBase64url s =
     (let base64url = strip_padding s in
      case match_chunks base64url of
        [] \<Rightarrow> Inl TypeError
      | chunks \<Rightarrow>
          Inr (fold (\<lambda>(index, chunk) acc. reducer acc chunk index) (enumerate 0 chunks)
                 (replicate ((length base64url * 3) div 4) 0)))"

text \<open>
  The arguments of \<^verbatim>\<open>crypto.subtle.verify\<close> are evaluated before the call: an exception of
  \<open>bufferFromBase64url\<close> leaves the function before the platform is asked.
\<close>

definition verifyAlgorithm :: "CryptoKeyWithJwk \<Rightarrow> string \<Rightarrow> js_object" where
  "verifyAlgorithm keyObject a =
     (if startsWith a ''RS'' then [(''name'', Some ''RSASSA-PKCS1-v1_5'')]
      else if startsWith a ''ES'' then
        [(''name'', Some ''ECDSA''), (''hash'', Some (''SHA-'' @ drop 2 a))]
      else [(''name'', crv (jwk keyObject))])"

definition verifySignatureAsync ::
  "platform \<Rightarrow> string \<Rightarrow> CryptoKeyWithJwk \<Rightarrow> string \<Rightarrow> string \<Rightarrow> error + bool" where
  "verifySignatureAsync p jwsSigningInput keyObject signature a =
     (case bufferFromBase64url signature of
        Inl e \<Rightarrow> Inl e
      | Inr sig \<Rightarrow>
          verify p (verifyAlgorithm keyObject a) (key keyObject) sig
            (TextEncoder_encode p jwsSigningInput))"

subsection \<open>The base64url encoding\<close>

text \<open>
  Modelled from the spec: \<^verbatim>\<open>encodeBase64Url\<close>, the encoding the decoder is measured
  against. It is not code of this repository (the tests call the platform's
  \<^verbatim>\<open>Buffer.toString("base64url")\<close>): the base64url encoding of RFC 4648, section 5, without
  padding. Three bytes give four 6-bit values, a last single byte two, a last pair
  three; a 6-bit value is written as the character at its index in the alphabet.
\<close>

fun encode_sextets :: "nat list \<Rightarrow> nat list" where
  "encode_sextets (a # b # c # rest) =
     [a div 4, (a mod 4) * 16 + b div 16, (b mod 16) * 4 + c div 64, c mod 64]
     @ encode_sextets rest"
| "encode_sextets [a, b] = [a div 4, (a mod 4) * 16 + b div 16, (b mod 16) * 4]"
| "encode_sextets [a] = [a div 4, (a mod 4) * 16]"
| "encode_sextets [] = []"

definition encodeBase64Url :: "byte list \<Rightarrow> string" where
  "encodeBase64Url bs = map (\<lambda>v. alphabet ! v) (encode_sextets (map unat bs))"

text \<open>
  The decoding of RFC 4648 in arithmetic, for strings over the alphabet: four
  characters give three bytes, a last pair one byte, a last triple two bytes, and a
  last single character none.
\<close>

fun index_of :: "'a \<Rightarrow> 'a list \<Rightarrow> nat" where
  "index_of x [] = 0"
| "index_of x (y # ys) = (if x = y then 0 else Suc (index_of x ys))"

definition sextet :: "char \<Rightarrow> nat" where
  "sextet c = index_of c alphabet"

fun decode_sextets :: "nat list \<Rightarrow> nat list" where
  "decode_sextets (a # b # c # d # rest) =
     [a * 4 + b div 16, (b mod 16) * 16 + c div 4, (c mod 4) * 64 + d] @ decode_sextets rest"
| "decode_sextets [a, b, c] = [a * 4 + b div 16, (b mod 16) * 16 + c div 4]"
| "decode_sextets [a, b] = [a * 4 + b div 16]"
| "decode_sextets [a] = []"
| "decode_sextets [] = []"

definition decodeBase64Url_spec :: "string \<Rightarrow> byte list" where
  "decodeBase64Url_spec s = map of_nat (decode_sextets (map sextet s))"

text \<open>A character outside the alphabet taken for \<^verbatim>\<open>A\<close>, the character of the value 0.\<close>

definition foreign_as_A :: "char \<Rightarrow> char" where
  "foreign_as_A c = (if c \<in> set alphabet then c else CHR ''A'')"

text \<open>The split of a list into groups of four, the last group holding what is left.\<close>

fun chunks4 :: "'a list \<Rightarrow> 'a list list" where
  "chunks4 (a # b # c # d # rest) = [a, b, c, d] # chunks4 rest"
| "chunks4 [a, b, c] = [[a, b, c]]"
| "chunks4 [a, b] = [[a, b]]"
| "chunks4 [a] = [[a]]"
| "chunks4 [] = []"

subsection \<open>Concrete inputs\<close>

text \<open>
  A platform, a key and an options object on which the theorems below are run. The
  platform imports a key only as an ECDSA key on the curve P-521 and accepts a
  signature only under ECDSA with SHA-512; no string it is given is a number; the
  message of an error is the message its constructor was given; an aborted step
  rejects with the reason of the abort.
\<close>

definition example_platform :: platform where
  "example_platform =
     \<lparr>importKey = (\<lambda>format keyData algorithm extractable usages.
        if format = ''jwk''
           \<and> algorithm = AlgObject [(''name'', Some ''ECDSA''), (''namedCurve'', Some ''P-521'')]
           \<and> \<not> extractable \<and> usages = [''verify'']
        then Inr (CryptoKey 7)
        else Inl (PlatformError ''NotSupportedError'')),
      verify = (\<lambda>algorithm k sig input.
        Inr (algorithm = [(''name'', Some ''ECDSA''), (''hash'', Some ''SHA-512'')])),
      TextEncoder_encode = map of_char,
      StringToNumber = (\<lambda>s. NaN),
      unsafe_integer_string = (\<lambda>n. ''1e+21''),
      message_of = (\<lambda>e. case e of
          FetchError uri m \<Rightarrow> m
        | NonRetryableFetchError uri m \<Rightarrow> m
        | NotSupportedError m \<Rightarrow> m
        | JwtInvalidSignatureAlgorithmError m a \<Rightarrow> m
        | TypeError \<Rightarrow> ''TypeError''
        | PlatformError m \<Rightarrow> m),
      rejection_of_abort = (\<lambda>r. r)\<rparr>"

definition example_jwk :: SignatureJwk where
  "example_jwk =
     \<lparr>kty = ''EC'', alg = Some ''ES512'', crv = Some ''P-521'', kid = Some ''k1'',
      use = Some ''sig'', rsa_n = None, rsa_e = None, ec_x = Some ''AQ'', ec_y = Some ''Ag''\<rparr>"

definition example_options :: js_record where
  "example_options =
     [''responseTimeout'' \<mapsto> JNumber (Finite 3000), ''signal'' \<mapsto> JSignal (CallerSignal 0)]"

section \<open>fetch\<close>




text \<open>
  Claim C10. A timer is installed exactly when \<^verbatim>\<open>Number(responseTimeout)\<close> is truthy.
  When it is not, no timer is installed, the options reach the platform's fetch as
  they came (only the body is added, no signal), and a request that never settles
  leaves the returned promise pending. This is the case when the option is absent,
  when it is 0, and when its conversion to a number is \<^verbatim>\<open>NaN\<close>.
\<close>

theorem no_timer_when_falsy:
  "(timer (fetch p uri requestOptions data reply) \<noteq> None
      \<longleftrightarrow> truthy (Number p (get_option requestOptions ''responseTimeout'')))
   \<and> (\<not> truthy (Number p (get_option requestOptions ''responseTimeout'')) \<longrightarrow>
        timer (fetch p uri requestOptions data reply) = None
        \<and> init (fetch p uri requestOptions data reply) =
            (spread requestOptions)
              (''body'' \<mapsto> (case data of None \<Rightarrow> JUndefined | Some d \<Rightarrow> JArrayBuffer d))
        \<and> returned (fetch p uri requestOptions data NeverSettles) = Pending)
   \<and> ((case requestOptions of None \<Rightarrow> True | Some ro \<Rightarrow> ro ''responseTimeout'' = None) \<longrightarrow>
        timer (fetch p uri requestOptions data reply) = None)
   \<and> (get_option requestOptions ''responseTimeout'' = JNumber (Finite 0) \<longrightarrow>
        timer (fetch p uri requestOptions data reply) = None)
   \<and> (Number p (get_option requestOptions ''responseTimeout'') = NaN \<longrightarrow>
        timer (fetch p uri requestOptions data reply) = None)"
  by (auto simp: fetch_def Let_def get_option_def aborts_def split: option.splits)

theorem no_timer_when_falsy_witness:
  "timer (fetch example_platform ''https://example/jwks.json'' None None NeverSettles) = None
   \<and> init (fetch example_platform ''https://example/jwks.json'' None None NeverSettles) =
       [''body'' \<mapsto> JUndefined]
   \<and> returned (fetch example_platform ''https://example/jwks.json'' None None NeverSettles) = Pending
   \<and> timer (fetch example_platform ''https://example/jwks.json''
        (Some [''responseTimeout'' \<mapsto> JNumber (Finite 0)]) None NeverSettles) = None
   \<and> timer (fetch example_platform ''https://example/jwks.json''
        (Some [''responseTimeout'' \<mapsto> JString ''soon'']) None NeverSettles) = None
   \<and> timer (fetch example_platform ''https://example/jwks.json''
        (Some [''responseTimeout'' \<mapsto> JNumber (Finite 3000)]) None NeverSettles) \<noteq> None"
  using no_timer_when_falsy [of example_platform "''https://example/jwks.json''" None None NeverSettles]
    no_timer_when_falsy [of example_platform "''https://example/jwks.json''"
      "Some [''responseTimeout'' \<mapsto> JNumber (Finite 0)]" None NeverSettles]
    no_timer_when_falsy [of example_platform "''https://example/jwks.json''"
      "Some [''responseTimeout'' \<mapsto> JString ''soon'']" None NeverSettles]
    no_timer_when_falsy [of example_platform "''https://example/jwks.json''"
      "Some [''responseTimeout'' \<mapsto> JNumber (Finite 3000)]" None NeverSettles]
  by (simp add: get_option_def spread_def example_platform_def)

text \<open>
  Claim C7. The code does not do this for options that carry a signal of their own.
  The options are spread after the signal of the new controller, so the caller's
  signal takes its place: with \<^verbatim>\<open>{responseTimeout: 3000, signal: s}\<close> the timer is installed,
  but the request is started with \<^verbatim>\<open>s\<close>, which the timer does not abort, and when no
  response arrives the returned promise stays pending. With \<^verbatim>\<open>{responseTimeout: 3000}\<close>
  alone the request is aborted and the awaiter observes the \<open>FetchError\<close>.
\<close>

theorem caller_signal_overrides_timeout:
  "timer (fetch example_platform ''https://example/jwks.json'' (Some example_options) None NeverSettles)
     = Some \<lparr>delay = Finite 3000,
             reason = FetchError ''https://example/jwks.json'' ''Response time-out (after 3000 ms.)''\<rparr>
   \<and> init (fetch example_platform ''https://example/jwks.json'' (Some example_options) None NeverSettles)
        ''signal'' = Some (JSignal (CallerSignal 0))
   \<and> init (fetch example_platform ''https://example/jwks.json'' (Some example_options) None NeverSettles)
        ''signal'' \<noteq> Some (JSignal ControllerSignal)
   \<and> returned (fetch example_platform ''https://example/jwks.json'' (Some example_options) None
        NeverSettles) = Pending
   \<and> returned (fetch example_platform ''https://example/jwks.json''
        (Some [''responseTimeout'' \<mapsto> JNumber (Finite 3000)]) None NeverSettles)
       = Rejected (FetchError ''https://example/jwks.json'' ''Response time-out (after 3000 ms.)'')"
  by (simp add: fetch_def Let_def get_option_def spread_def example_options_def map_add_def
      aborts_def example_platform_def)

text \<open>
  Where the options carry no signal of their own, a time-out that is not zero aborts
  the request: when the platform's fetch has not settled by the time the timer fires,
  the awaiter observes a \<open>FetchError\<close> with the URI and the message of what the platform
  makes of the reason, which is the \<open>FetchError\<close> of the time-out; when the response has
  come in time with status 200 and the body has not, the returned promise rejects
  with what the platform makes of the reason. The default response time-out is 3000 ms.
\<close>

lemma timeout_without_own_signal:
  assumes "Number p (get_option requestOptions ''responseTimeout'') = Finite t" and "t \<noteq> 0"
    and "spread requestOptions ''signal'' = None"
  shows "timer (fetch p uri requestOptions data reply) =
      Some \<lparr>delay = Finite t,
            reason = FetchError uri
              (''Response time-out (after '' @ NumberToString p (Finite t) @ '' ms.)'')\<rparr>"
    and "init (fetch p uri requestOptions data reply) ''signal'' = Some (JSignal ControllerSignal)"
    and "reply = NeverSettles \<or> reply = Rejects Late e \<or> reply = Fulfils Late r \<Longrightarrow>
      returned (fetch p uri requestOptions data reply) =
        Rejected (FetchError uri (message_of p (rejection_of_abort p (FetchError uri
          (''Response time-out (after '' @ NumberToString p (Finite t) @ '' ms.)'')))))"
    and "reply = Fulfils InTime r \<Longrightarrow> status r = 200 \<Longrightarrow>
      arrayBuffer r = NeverSettles \<or> arrayBuffer r = Rejects Late e \<or> arrayBuffer r = Fulfils Late b \<Longrightarrow>
      returned (fetch p uri requestOptions data reply) =
        Rejected (rejection_of_abort p (FetchError uri
          (''Response time-out (after '' @ NumberToString p (Finite t) @ '' ms.)'')))"
  using assms
  by (auto simp: fetch_def Let_def spread_def map_add_def aborts_def
      simp del: NumberToString.simps split: option.splits)

lemma default_response_timeout: "response defaultFetchTimeouts = 3000"
  by (simp add: defaultFetchTimeouts_def)

section \<open>Keys and signatures\<close>

lemma startsWith_ES_not_RS: "startsWith a ''ES'' \<Longrightarrow> \<not> startsWith a ''RS'' \<and> a \<noteq> []"
  by (auto simp: startsWith_def)

lemma decode_QUJD: "bufferFromBase64url ''QUJD'' = Inr [65, 66, 67]"
  by code_simp

text \<open>
  Claim C2. The enum maps \<^verbatim>\<open>ES256\<close> to \<^verbatim>\<open>P-256\<close>, \<^verbatim>\<open>ES384\<close> to \<^verbatim>\<open>P-384\<close> and \<^verbatim>\<open>ES512\<close> to \<^verbatim>\<open>P-521\<close>, and has
  no other member. For every JWK whose effective algorithm starts with \<^verbatim>\<open>ES\<close>, the key is
  imported with the algorithm name \<^verbatim>\<open>ECDSA\<close> and the curve the enum gives for that
  algorithm.
\<close>

theorem ecdsa_named_curve:
  "NamedCurvesWebCrypto ''ES256'' = Some ''P-256''
   \<and> NamedCurvesWebCrypto ''ES384'' = Some ''P-384''
   \<and> NamedCurvesWebCrypto ''ES512'' = Some ''P-521''
   \<and> dom NamedCurvesWebCrypto = {''ES256'', ''ES384'', ''ES512''}
   \<and> (effective_alg aJwk jwtHeaderAlg = Some a \<and> startsWith a ''ES'' \<longrightarrow>
        transformJwkToKeyObjectAsync p aJwk jwtHeaderAlg =
          (case importKey p ''jwk'' aJwk
                  (AlgObject [(''name'', Some ''ECDSA''), (''namedCurve'', NamedCurvesWebCrypto a)])
                  False [''verify''] of
             Inl e \<Rightarrow> Inl e
           | Inr k \<Rightarrow> Inr \<lparr>key = k, jwk = aJwk\<rparr>))"
proof -
  have curves: "NamedCurvesWebCrypto ''ES256'' = Some ''P-256''"
    "NamedCurvesWebCrypto ''ES384'' = Some ''P-384''"
    "NamedCurvesWebCrypto ''ES512'' = Some ''P-521''"
    by (simp_all add: NamedCurvesWebCrypto_def)
  have members: "dom NamedCurvesWebCrypto = {''ES256'', ''ES384'', ''ES512''}"
    by (auto simp: NamedCurvesWebCrypto_def dom_def split: if_splits)
  have import: "transformJwkToKeyObjectAsync p aJwk jwtHeaderAlg =
          (case importKey p ''jwk'' aJwk
                  (AlgObject [(''name'', Some ''ECDSA''), (''namedCurve'', NamedCurvesWebCrypto a)])
                  False [''verify''] of
             Inl e \<Rightarrow> Inl e
           | Inr k \<Rightarrow> Inr \<lparr>key = k, jwk = aJwk\<rparr>)"
    if "effective_alg aJwk jwtHeaderAlg = Some a" "startsWith a ''ES''"
    using that startsWith_ES_not_RS [OF that(2)]
    by (simp add: transformJwkToKeyObjectAsync_def algIdentifier_def)
  from curves members import show ?thesis by blast
qed

theorem ecdsa_named_curve_witness:
  "effective_alg example_jwk (Some ''RS256'') = Some ''ES512'' \<and> startsWith ''ES512'' ''ES''
   \<and> transformJwkToKeyObjectAsync example_platform example_jwk (Some ''RS256'') =
       Inr \<lparr>key = CryptoKey 7, jwk = example_jwk\<rparr>
   \<and> importKey example_platform ''jwk'' example_jwk
        (AlgObject [(''name'', Some ''ECDSA''), (''namedCurve'', Some ''P-512'')]) False [''verify'']
       = Inl (PlatformError ''NotSupportedError'')"
proof -
  have h: "effective_alg example_jwk (Some ''RS256'') = Some ''ES512'' \<and> startsWith ''ES512'' ''ES''"
    by (simp add: effective_alg_def example_jwk_def startsWith_def)
  from ecdsa_named_curve [of example_jwk "Some ''RS256''" "''ES512''" example_platform] h
  show ?thesis
    by (simp add: example_platform_def)
qed

text \<open>
  Claim C5. The algorithm the key is imported with is the \<^verbatim>\<open>alg\<close> of the JWK when the JWK
  has one, and otherwise the algorithm of the JWT header; when neither is present the
  call fails with \<open>JwtInvalidSignatureAlgorithmError\<close>. (An algorithm that is the empty
  string is falsy: the call then fails with the same error and imports nothing.)
\<close>

theorem effective_algorithm:
  "(alg aJwk = Some a \<longrightarrow>
      transformJwkToKeyObjectAsync p aJwk jwtHeaderAlg =
        (if a = [] then
           Inl (JwtInvalidSignatureAlgorithmError ''Missing alg on both JWK and JWT header'' (Some a))
         else case importKey p ''jwk'' aJwk (algIdentifier aJwk a) False [''verify''] of
                Inl e \<Rightarrow> Inl e
              | Inr k \<Rightarrow> Inr \<lparr>key = k, jwk = aJwk\<rparr>))
   \<and> (alg aJwk = None \<and> jwtHeaderAlg = Some a \<longrightarrow>
      transformJwkToKeyObjectAsync p aJwk jwtHeaderAlg =
        (if a = [] then
           Inl (JwtInvalidSignatureAlgorithmError ''Missing alg on both JWK and JWT header'' (Some a))
         else case importKey p ''jwk'' aJwk (algIdentifier aJwk a) False [''verify''] of
                Inl e \<Rightarrow> Inl e
              | Inr k \<Rightarrow> Inr \<lparr>key = k, jwk = aJwk\<rparr>))
   \<and> (alg aJwk = None \<and> jwtHeaderAlg = None \<longrightarrow>
      transformJwkToKeyObjectAsync p aJwk jwtHeaderAlg =
        Inl (JwtInvalidSignatureAlgorithmError ''Missing alg on both JWK and JWT header'' None))"
  by (simp add: transformJwkToKeyObjectAsync_def effective_alg_def)

theorem effective_algorithm_witness:
  "transformJwkToKeyObjectAsync example_platform example_jwk (Some ''RS256'') =
     Inr \<lparr>key = CryptoKey 7, jwk = example_jwk\<rparr>
   \<and> transformJwkToKeyObjectAsync example_platform (example_jwk\<lparr>alg := None\<rparr>) (Some ''ES512'') =
     Inr \<lparr>key = CryptoKey 7, jwk = example_jwk\<lparr>alg := None\<rparr>\<rparr>
   \<and> transformJwkToKeyObjectAsync example_platform (example_jwk\<lparr>alg := None\<rparr>) (Some ''RS256'') =
     Inl (PlatformError ''NotSupportedError'')
   \<and> transformJwkToKeyObjectAsync example_platform (example_jwk\<lparr>alg := None\<rparr>) None =
     Inl (JwtInvalidSignatureAlgorithmError ''Missing alg on both JWK and JWT header'' None)"
  using effective_algorithm [of example_jwk "''ES512''" example_platform "Some ''RS256''"]
    effective_algorithm [of "example_jwk\<lparr>alg := None\<rparr>" "''ES512''" example_platform "Some ''ES512''"]
    effective_algorithm [of "example_jwk\<lparr>alg := None\<rparr>" "''RS256''" example_platform "Some ''RS256''"]
    effective_algorithm [of "example_jwk\<lparr>alg := None\<rparr>" "''RS256''" example_platform None]
  by (simp add: example_jwk_def example_platform_def algIdentifier_def startsWith_def
      NamedCurvesWebCrypto_def)

text \<open>
  Claim C6. Both synchronous entry points fail with \<open>NotSupportedError\<close> on every input.
  The asynchronous ones are there: the key transformation returns what the platform's
  \<^verbatim>\<open>importKey\<close> returns for an algorithm that is present, and the verification returns
  what the platform's \<^verbatim>\<open>verify\<close> returns for a signature that decodes.
\<close>

theorem sync_not_supported:
  "(transformJwkToKeyObjectSync x :: error + 'r) =
     Inl (NotSupportedError
       ''Synchronously transforming a JWK into a key object is not supported in the browser'')
   \<and> (verifySignatureSync y :: error + 's) =
     Inl (NotSupportedError
       ''Synchronously verifying a JWT signature is not supported in the browser'')
   \<and> (effective_alg aJwk jwtHeaderAlg = Some a \<and> a \<noteq> [] \<longrightarrow>
        transformJwkToKeyObjectAsync p aJwk jwtHeaderAlg =
          (case importKey p ''jwk'' aJwk (algIdentifier aJwk a) False [''verify''] of
             Inl e \<Rightarrow> Inl e
           | Inr k \<Rightarrow> Inr \<lparr>key = k, jwk = aJwk\<rparr>))
   \<and> (bufferFromBase64url signature = Inr bytes \<longrightarrow>
        verifySignatureAsync p jwsSigningInput keyObject signature a' =
          verify p (verifyAlgorithm keyObject a') (key keyObject) bytes
            (TextEncoder_encode p jwsSigningInput))"
  by (simp add: transformJwkToKeyObjectSync_def verifySignatureSync_def
      transformJwkToKeyObjectAsync_def verifySignatureAsync_def)

theorem sync_not_supported_witness:
  "(transformJwkToKeyObjectSync (example_jwk, Some ''ES512'') :: error + CryptoKeyWithJwk) =
     Inl (NotSupportedError
       ''Synchronously transforming a JWK into a key object is not supported in the browser'')
   \<and> (verifySignatureSync (''h.p'', \<lparr>key = CryptoKey 7, jwk = example_jwk\<rparr>, ''QUJD'', ''ES512'')
        :: error + bool) =
     Inl (NotSupportedError
       ''Synchronously verifying a JWT signature is not supported in the browser'')
   \<and> transformJwkToKeyObjectAsync example_platform example_jwk None =
       Inr \<lparr>key = CryptoKey 7, jwk = example_jwk\<rparr>
   \<and> verifySignatureAsync example_platform ''h.p'' \<lparr>key = CryptoKey 7, jwk = example_jwk\<rparr>
        ''QUJD'' ''ES512'' = Inr True"
proof -
  have h1: "effective_alg example_jwk None = Some ''ES512'' \<and> ''ES512'' \<noteq> []"
    by (simp add: effective_alg_def example_jwk_def)
  from h1 decode_QUJD
    sync_not_supported [of "(example_jwk, Some ''ES512'')"
      "(''h.p'', \<lparr>key = CryptoKey 7, jwk = example_jwk\<rparr>, ''QUJD'', ''ES512'')"
      example_jwk None "''ES512''" example_platform "''QUJD''" "[65, 66, 67]" "''h.p''"
      "\<lparr>key = CryptoKey 7, jwk = example_jwk\<rparr>" "''ES512''"]
  show ?thesis
    by (simp add: example_platform_def algIdentifier_def verifyAlgorithm_def startsWith_def
        NamedCurvesWebCrypto_def)
qed

text \<open>
  Claim C8. The verification asks the platform with an algorithm chosen by the name:
  \<^verbatim>\<open>RSASSA-PKCS1-v1_5\<close> for a name that starts with \<^verbatim>\<open>RS\<close>; \<^verbatim>\<open>ECDSA\<close> with the hash \<^verbatim>\<open>SHA-\<close> followed
  by what comes after the first two characters for a name that starts with \<^verbatim>\<open>ES\<close>
  (\<^verbatim>\<open>SHA-256\<close>, \<^verbatim>\<open>SHA-384\<close>, \<^verbatim>\<open>SHA-512\<close> for \<^verbatim>\<open>ES256\<close>, \<^verbatim>\<open>ES384\<close>, \<^verbatim>\<open>ES512\<close>); and for any other name, such as
  \<^verbatim>\<open>EdDSA\<close>, the \<^verbatim>\<open>crv\<close> of the key's JWK. The signature is decoded first, and a failure
  of the decoder is the result.
\<close>

theorem verify_dispatch:
  "(startsWith a ''RS'' \<longrightarrow>
      verifySignatureAsync p jwsSigningInput keyObject signature a =
        (case bufferFromBase64url signature of
           Inl e \<Rightarrow> Inl e
         | Inr bytes \<Rightarrow>
             verify p [(''name'', Some ''RSASSA-PKCS1-v1_5'')] (key keyObject) bytes
               (TextEncoder_encode p jwsSigningInput)))
   \<and> (startsWith a ''ES'' \<longrightarrow>
      verifySignatureAsync p jwsSigningInput keyObject signature a =
        (case bufferFromBase64url signature of
           Inl e \<Rightarrow> Inl e
         | Inr bytes \<Rightarrow>
             verify p [(''name'', Some ''ECDSA''), (''hash'', Some (''SHA-'' @ drop 2 a))]
               (key keyObject) bytes (TextEncoder_encode p jwsSigningInput)))
   \<and> (\<not> startsWith a ''RS'' \<and> \<not> startsWith a ''ES'' \<longrightarrow>
      verifySignatureAsync p jwsSigningInput keyObject signature a =
        (case bufferFromBase64url signature of
           Inl e \<Rightarrow> Inl e
         | Inr bytes \<Rightarrow>
             verify p [(''name'', crv (jwk keyObject))] (key keyObject) bytes
               (TextEncoder_encode p jwsSigningInput)))
   \<and> verifyAlgorithm keyObject ''ES256'' = [(''name'', Some ''ECDSA''), (''hash'', Some ''SHA-256'')]
   \<and> verifyAlgorithm keyObject ''ES384'' = [(''name'', Some ''ECDSA''), (''hash'', Some ''SHA-384'')]
   \<and> verifyAlgorithm keyObject ''ES512'' = [(''name'', Some ''ECDSA''), (''hash'', Some ''SHA-512'')]
   \<and> verifyAlgorithm keyObject ''EdDSA'' = [(''name'', crv (jwk keyObject))]"
proof -
  have excl: "startsWith a ''ES'' \<Longrightarrow> \<not> startsWith a ''RS''"
    by (auto simp: startsWith_def)
  have rs: "startsWith a ''RS'' \<Longrightarrow>
      verifyAlgorithm keyObject a = [(''name'', Some ''RSASSA-PKCS1-v1_5'')]"
    by (simp add: verifyAlgorithm_def)
  have es: "startsWith a ''ES'' \<Longrightarrow>
      verifyAlgorithm keyObject a = [(''name'', Some ''ECDSA''), (''hash'', Some (''SHA-'' @ drop 2 a))]"
    using excl by (simp add: verifyAlgorithm_def)
  have ed: "\<not> startsWith a ''RS'' \<Longrightarrow> \<not> startsWith a ''ES'' \<Longrightarrow>
      verifyAlgorithm keyObject a = [(''name'', crv (jwk keyObject))]"
    by (simp add: verifyAlgorithm_def)
  have fixed: "verifyAlgorithm keyObject ''ES256'' = [(''name'', Some ''ECDSA''), (''hash'', Some ''SHA-256'')]"
    "verifyAlgorithm keyObject ''ES384'' = [(''name'', Some ''ECDSA''), (''hash'', Some ''SHA-384'')]"
    "verifyAlgorithm keyObject ''ES512'' = [(''name'', Some ''ECDSA''), (''hash'', Some ''SHA-512'')]"
    "verifyAlgorithm keyObject ''EdDSA'' = [(''name'', crv (jwk keyObject))]"
    by (simp_all add: verifyAlgorithm_def startsWith_def)
  from rs es ed fixed show ?thesis
    by (simp add: verifySignatureAsync_def split: sum.splits)
qed

theorem verify_dispatch_witness:
  "startsWith ''RS256'' ''RS'' \<and> startsWith ''ES384'' ''ES''
   \<and> \<not> startsWith ''EdDSA'' ''RS'' \<and> \<not> startsWith ''EdDSA'' ''ES''
   \<and> verifySignatureAsync example_platform ''h.p'' \<lparr>key = CryptoKey 7, jwk = example_jwk\<rparr>
        ''QUJD'' ''RS256''
      = verify example_platform [(''name'', Some ''RSASSA-PKCS1-v1_5'')] (CryptoKey 7)
          [65, 66, 67] (TextEncoder_encode example_platform ''h.p'')
   \<and> verifySignatureAsync example_platform ''h.p'' \<lparr>key = CryptoKey 7, jwk = example_jwk\<rparr>
        ''QUJD'' ''ES384''
      = verify example_platform [(''name'', Some ''ECDSA''), (''hash'', Some ''SHA-384'')]
          (CryptoKey 7) [65, 66, 67] (TextEncoder_encode example_platform ''h.p'')
   \<and> verifySignatureAsync example_platform ''h.p''
        \<lparr>key = CryptoKey 7, jwk = example_jwk\<lparr>crv := Some ''Ed25519''\<rparr>\<rparr> ''QUJD'' ''EdDSA''
      = verify example_platform [(''name'', Some ''Ed25519'')] (CryptoKey 7) [65, 66, 67]
          (TextEncoder_encode example_platform ''h.p'')"
proof -
  have h: "startsWith ''RS256'' ''RS'' \<and> startsWith ''ES384'' ''ES''
     \<and> \<not> startsWith ''EdDSA'' ''RS'' \<and> \<not> startsWith ''EdDSA'' ''ES''"
    by (simp add: startsWith_def)
  from h decode_QUJD
    verify_dispatch [of "''RS256''" example_platform "''h.p''"
      "\<lparr>key = CryptoKey 7, jwk = example_jwk\<rparr>" "''QUJD''"]
    verify_dispatch [of "''ES384''" example_platform "''h.p''"
      "\<lparr>key = CryptoKey 7, jwk = example_jwk\<rparr>" "''QUJD''"]
    verify_dispatch [of "''EdDSA''" example_platform "''h.p''"
      "\<lparr>key = CryptoKey 7, jwk = example_jwk\<lparr>crv := Some ''Ed25519''\<rparr>\<rparr>" "''QUJD''"]
  show ?thesis
    by (simp add: example_jwk_def)
qed

section \<open>bufferFromBase64url\<close>

subsection \<open>Bits and arithmetic\<close>

lemma or_plus: "x < 2 ^ k \<Longrightarrow> push_bit k (a::nat) OR x = push_bit k a + x"
proof -
  assume "x < 2 ^ k"
  then have x: "take_bit k x = x"
    by (simp add: take_bit_nat_eq_self)
  have "push_bit k a + take_bit k x = push_bit k a OR take_bit k x"
    by (rule disjunctive_add) (auto simp: bit_simps)
  with x show ?thesis by simp
qed

lemma bit_small:
  assumes "b < 64" and "bit (b::nat) m" shows "m < 6"
proof -
  from assms(1) have "take_bit 6 b = b"
    by (simp add: take_bit_nat_eq_self)
  with assms(2) have "bit (take_bit 6 b) m" by simp
  then show ?thesis by (simp add: bit_take_bit_iff)
qed

lemma signed_drop_small:
  assumes "b < 64"
  shows "signed_drop_bit k (of_nat b :: 32 word) = of_nat (drop_bit k b)"
proof (rule bit_word_eqI)
  fix n assume n: "n < LENGTH(32)"
  have high: "\<not> bit b m" if "6 \<le> m" for m
    using bit_small [OF assms, of m] that by auto
  show "bit (signed_drop_bit k (word_of_nat b :: 32 word)) n = bit (word_of_nat (drop_bit k b) :: 32 word) n"
  proof (cases "LENGTH(32) - k \<le> n")
    case True
    with n have "6 \<le> k + n" by simp
    with True n high [of 31] high [of "k + n"] show ?thesis
      by (simp add: bit_signed_drop_bit_iff bit_of_nat_iff bit_drop_bit_eq)
  next
    case False
    then have "k + n < LENGTH(32)" by linarith
    with False n show ?thesis
      by (simp add: bit_signed_drop_bit_iff bit_of_nat_iff bit_drop_bit_eq add.commute)
  qed
qed

lemma and_15: "(of_nat b :: 32 word) AND 15 = of_nat (b mod 16)"
proof -
  have "(of_nat b :: 32 word) AND 15 = of_nat b AND of_nat 15" by simp
  also have "\<dots> = of_nat (b AND 15)" by (simp only: of_nat_and_eq)
  also have "b AND 15 = b AND mask 4" by (simp add: mask_eq_exp_minus_1)
  also have "\<dots> = b mod 16" by (simp add: take_bit_eq_mod flip: take_bit_eq_mask)
  finally show ?thesis .
qed

lemma and_3: "(of_nat b :: 32 word) AND 3 = of_nat (b mod 4)"
proof -
  have "(of_nat b :: 32 word) AND 3 = of_nat b AND of_nat 3" by simp
  also have "\<dots> = of_nat (b AND 3)" by (simp only: of_nat_and_eq)
  also have "b AND 3 = b AND mask 2" by (simp add: mask_eq_exp_minus_1)
  also have "\<dots> = b mod 4" by (simp add: take_bit_eq_mod flip: take_bit_eq_mask)
  finally show ?thesis .
qed

lemma ucast_small: "n < 256 \<Longrightarrow> (ucast (of_nat n :: 32 word) :: 8 word) = of_nat n"
  by (simp add: unsigned_of_nat take_bit_nat_eq_self)

lemma value0:
  assumes "a < 64" "b < 64"
  shows "(ucast (push_bit 2 (of_nat a :: 32 word) OR signed_drop_bit 4 (of_nat b)) :: 8 word)
         = of_nat (a * 4 + b div 16)"
proof -
  from assms have less: "a * 4 + b div 16 < 256" by simp
  have "b div 16 < 2 ^ 2" using assms by simp
  then have "push_bit 2 a OR b div 16 = push_bit 2 a + b div 16" by (rule or_plus)
  then have "push_bit 2 a OR drop_bit 4 b = a * 4 + b div 16"
    by (simp add: push_bit_eq_mult drop_bit_eq_div)
  then have "push_bit 2 (of_nat a :: 32 word) OR signed_drop_bit 4 (of_nat b) = of_nat (a * 4 + b div 16)"
    by (simp only: signed_drop_small [OF assms(2)] push_bit_of_nat flip: of_nat_or_eq)
  with less show ?thesis by (simp only: ucast_small)
qed

lemma value1:
  assumes "b < 64" "c < 64"
  shows "(ucast (push_bit 4 ((of_nat b :: 32 word) AND 15) OR signed_drop_bit 2 (of_nat c)) :: 8 word)
         = of_nat ((b mod 16) * 16 + c div 4)"
proof -
  from assms have less: "(b mod 16) * 16 + c div 4 < 256" by simp
  have "c div 4 < 2 ^ 4" using assms by simp
  then have "push_bit 4 (b mod 16) OR c div 4 = push_bit 4 (b mod 16) + c div 4" by (rule or_plus)
  then have "push_bit 4 (b mod 16) OR drop_bit 2 c = (b mod 16) * 16 + c div 4"
    by (simp add: push_bit_eq_mult drop_bit_eq_div)
  then have "push_bit 4 ((of_nat b :: 32 word) AND 15) OR signed_drop_bit 2 (of_nat c)
      = of_nat ((b mod 16) * 16 + c div 4)"
    by (simp only: signed_drop_small [OF assms(2)] and_15 push_bit_of_nat flip: of_nat_or_eq)
  with less show ?thesis by (simp only: ucast_small)
qed

lemma value2:
  assumes "c < 64" "d < 64"
  shows "(ucast (push_bit 6 ((of_nat c :: 32 word) AND 3) OR of_nat d) :: 8 word)
         = of_nat ((c mod 4) * 64 + d)"
proof -
  from assms have less: "(c mod 4) * 64 + d < 256" by simp
  have "d < 2 ^ 6" using assms by simp
  then have "push_bit 6 (c mod 4) OR d = push_bit 6 (c mod 4) + d" by (rule or_plus)
  then have "push_bit 6 (c mod 4) OR d = (c mod 4) * 64 + d"
    by (simp add: push_bit_eq_mult)
  then have "push_bit 6 ((of_nat c :: 32 word) AND 3) OR of_nat d = of_nat ((c mod 4) * 64 + d)"
    by (simp only: and_3 push_bit_of_nat flip: of_nat_or_eq)
  with less show ?thesis by (simp only: ucast_small)
qed

subsection \<open>The alphabet and the map\<close>

lemma distinct_alphabet: "distinct alphabet"
  by (simp add: alphabet_def)

lemma length_alphabet: "length alphabet = 64"
  by (simp add: alphabet_def)

lemma index_of_less: "x \<in> set xs \<Longrightarrow> index_of x xs < length xs"
  by (induction xs) auto

lemma index_of_nth: "distinct xs \<Longrightarrow> i < length xs \<Longrightarrow> index_of (xs ! i) xs = i"
proof (induction xs arbitrary: i)
  case Nil
  then show ?case by simp
next
  case (Cons x xs)
  then show ?case by (cases i) auto
qed

lemma fold_assign:
  "distinct xs \<Longrightarrow>
     fold (\<lambda>(index, char) acc. acc(of_char char \<mapsto> index)) (enumerate n xs) m (of_char c)
       = (if c \<in> set xs then Some (n + index_of c xs) else (m :: nat \<rightharpoonup> nat) (of_char c))"
proof (induction xs arbitrary: n m)
  case Nil
  then show ?case by simp
next
  case (Cons x xs)
  then show ?case by auto
qed

lemma b64map_char: "b64map (of_char c) = (if c \<in> set alphabet then Some (sextet c) else None)"
  by (simp add: b64map_def sextet_def fold_assign [OF distinct_alphabet])

lemma sextet_less: "c \<in> set alphabet \<Longrightarrow> sextet c < 64"
  using index_of_less [of c alphabet] by (simp add: sextet_def length_alphabet)

lemma sextet_nth: "v < 64 \<Longrightarrow> sextet (alphabet ! v) = v"
  by (simp add: sextet_def index_of_nth distinct_alphabet length_alphabet)

lemma map_get_char:
  "i < length chunk \<Longrightarrow> chunk ! i \<in> set alphabet \<Longrightarrow>
     map_get (charCodeAt chunk i) = Some (sextet (chunk ! i))"
  by (simp add: map_get_def charCodeAt_def b64map_char)

lemma map_get_other:
  "i < length chunk \<Longrightarrow> chunk ! i \<notin> set alphabet \<Longrightarrow> map_get (charCodeAt chunk i) = None"
  by (simp add: map_get_def charCodeAt_def b64map_char)

lemma map_get_past: "length chunk \<le> i \<Longrightarrow> map_get (charCodeAt chunk i) = None"
  by (simp add: map_get_def charCodeAt_def)

subsection \<open>The bytes of a chunk\<close>

lemma ToInt32_Some: "ToInt32 (Some n) = of_nat n"
  by (simp add: ToInt32_def)

lemma ToInt32_None: "ToInt32 None = of_nat 0"
  by (simp add: ToInt32_def)

lemma chunk_bytes_4:
  assumes "set [a, b, c, d] \<subseteq> set alphabet"
  shows "chunk_bytes [a, b, c, d] =
    [of_nat (sextet a * 4 + sextet b div 16),
     of_nat ((sextet b mod 16) * 16 + sextet c div 4),
     of_nat ((sextet c mod 4) * 64 + sextet d)]"
proof -
  from assms have m: "map_get (charCodeAt [a, b, c, d] 0) = Some (sextet a)"
    "map_get (charCodeAt [a, b, c, d] 1) = Some (sextet b)"
    "map_get (charCodeAt [a, b, c, d] 2) = Some (sextet c)"
    "map_get (charCodeAt [a, b, c, d] 3) = Some (sextet d)"
    by (simp_all add: map_get_char)
  from assms have l: "sextet a < 64" "sextet b < 64" "sextet c < 64" "sextet d < 64"
    by (simp_all add: sextet_less)
  show ?thesis
    unfolding chunk_bytes_def chunk_values_def Let_def m ToInt32_Some ToUint8_def prod.case
    by (simp only: value0 value1 value2 l)
qed

lemma chunk_bytes_3:
  assumes "set [a, b, c] \<subseteq> set alphabet"
  shows "chunk_bytes [a, b, c] =
    [of_nat (sextet a * 4 + sextet b div 16),
     of_nat ((sextet b mod 16) * 16 + sextet c div 4),
     of_nat ((sextet c mod 4) * 64)]"
proof -
  from assms have m: "map_get (charCodeAt [a, b, c] 0) = Some (sextet a)"
    "map_get (charCodeAt [a, b, c] 1) = Some (sextet b)"
    "map_get (charCodeAt [a, b, c] 2) = Some (sextet c)"
    "map_get (charCodeAt [a, b, c] 3) = None"
    by (simp_all add: map_get_char map_get_past)
  from assms have l: "sextet a < 64" "sextet b < 64" "sextet c < 64" "(0::nat) < 64"
    by (simp_all add: sextet_less)
  have "chunk_bytes [a, b, c] =
    [of_nat (sextet a * 4 + sextet b div 16),
     of_nat ((sextet b mod 16) * 16 + sextet c div 4),
     of_nat ((sextet c mod 4) * 64 + 0)]"
    unfolding chunk_bytes_def chunk_values_def Let_def m ToInt32_Some ToInt32_None ToUint8_def prod.case
    by (simp only: value0 value1 value2 l)
  then show ?thesis by simp
qed

lemma chunk_bytes_2:
  assumes "set [a, b] \<subseteq> set alphabet"
  shows "chunk_bytes [a, b] =
    [of_nat (sextet a * 4 + sextet b div 16), of_nat ((sextet b mod 16) * 16), 0]"
proof -
  from assms have m: "map_get (charCodeAt [a, b] 0) = Some (sextet a)"
    "map_get (charCodeAt [a, b] 1) = Some (sextet b)"
    "map_get (charCodeAt [a, b] 2) = None"
    "map_get (charCodeAt [a, b] 3) = None"
    by (simp_all add: map_get_char map_get_past)
  from assms have l: "sextet a < 64" "sextet b < 64" "(0::nat) < 64"
    by (simp_all add: sextet_less)
  have "chunk_bytes [a, b] =
    [of_nat (sextet a * 4 + sextet b div 16),
     of_nat ((sextet b mod 16) * 16 + 0 div 4),
     of_nat ((0 mod 4) * 64 + 0)]"
    unfolding chunk_bytes_def chunk_values_def Let_def m ToInt32_Some ToInt32_None ToUint8_def prod.case
    by (simp only: value0 value1 value2 l)
  then show ?thesis by simp
qed

lemma length_chunk_bytes: "length (chunk_bytes chunk) = 3"
  by (simp add: chunk_bytes_def split: prod.splits)

subsection \<open>The reducer and the fold\<close>

lemma length_set_index: "length (set_index acc i v) = length acc"
  by (simp add: set_index_def)

lemma nth_set_index:
  "j < length acc \<Longrightarrow> set_index acc i v ! j = (if j = i then ToUint8 v else acc ! j)"
  by (simp add: set_index_def)

lemma length_reducer: "length (reducer acc chunk index) = length acc"
  by (simp add: reducer_def length_set_index split: prod.splits)

lemma nth_reducer:
  "j < length acc \<Longrightarrow>
     reducer acc chunk index ! j =
       (if 3 * index \<le> j \<and> j < 3 * index + 3 then chunk_bytes chunk ! (j - 3 * index)
        else acc ! j)"
proof -
  assume j: "j < length acc"
  obtain v0 v1 v2 where v: "chunk_values chunk = (v0, v1, v2)"
    by (cases "chunk_values chunk") auto
  consider "j = 3 * index" | "j = 3 * index + 1" | "j = 3 * index + 2"
    | "\<not> (3 * index \<le> j \<and> j < 3 * index + 3)"
    by linarith
  then show ?thesis
  proof cases
    case 1
    with j v show ?thesis
      by (simp add: reducer_def chunk_bytes_def nth_set_index length_set_index)
  next
    case 2
    with j v show ?thesis
      by (simp add: reducer_def chunk_bytes_def nth_set_index length_set_index)
  next
    case 3
    with j v show ?thesis
      by (simp add: reducer_def chunk_bytes_def nth_set_index length_set_index)
  next
    case 4
    then have "j \<noteq> 3 * index" "j \<noteq> 3 * index + 1" "j \<noteq> 3 * index + 2"
      by linarith+
    with 4 j v show ?thesis
      by (auto simp: reducer_def nth_set_index length_set_index)
  qed
qed

lemma length_fold_reducer:
  "length (fold (\<lambda>(index, chunk) acc. reducer acc chunk index) (enumerate i chunks) acc)
     = length acc"
  by (induction chunks arbitrary: i acc) (simp_all add: length_reducer)

lemma length_concat_chunk_bytes: "length (concat (map chunk_bytes chunks)) = 3 * length chunks"
  by (induction chunks) (simp_all add: length_chunk_bytes)

lemma nth_fold_reducer:
  "j < length acc \<Longrightarrow>
     fold (\<lambda>(index, chunk) acc. reducer acc chunk index) (enumerate i chunks) acc ! j =
       (if 3 * i \<le> j \<and> j < 3 * i + 3 * length chunks
        then concat (map chunk_bytes chunks) ! (j - 3 * i)
        else acc ! j)"
proof (induction chunks arbitrary: i acc)
  case Nil
  then show ?case by auto
next
  case (Cons chunk chunks)
  have step: "fold (\<lambda>(index, chunk) acc. reducer acc chunk index) (enumerate i (chunk # chunks)) acc
      = fold (\<lambda>(index, chunk) acc. reducer acc chunk index) (enumerate (Suc i) chunks)
          (reducer acc chunk i)"
    by simp
  from Cons.prems have j': "j < length (reducer acc chunk i)"
    by (simp add: length_reducer)
  note ih = Cons.IH [OF j', of "Suc i"]
  consider "j < 3 * i" | "3 * i \<le> j \<and> j < 3 * i + 3" | "3 * i + 3 \<le> j"
    by linarith
  then show ?case
  proof cases
    case 1
    with Cons.prems show ?thesis
      unfolding step ih by (simp add: nth_reducer)
  next
    case 2
    then have "j - 3 * i < 3" by linarith
    then have "j - 3 * i < length (chunk_bytes chunk)"
      by (simp add: length_chunk_bytes)
    with 2 Cons.prems show ?thesis
      unfolding step ih by (simp add: nth_reducer nth_append)
  next
    case 3
    then have "\<not> j - 3 * i < 3" by linarith
    then have "\<not> j - 3 * i < length (chunk_bytes chunk)"
      by (simp add: length_chunk_bytes)
    moreover from 3 have "j - 3 * i - 3 = j - 3 * Suc i" by simp
    ultimately show ?thesis
      using 3 Cons.prems unfolding step ih
      by (auto simp: nth_reducer nth_append length_chunk_bytes)
  qed
qed

lemma fold_reducer_take:
  assumes "n \<le> 3 * length chunks"
  shows "fold (\<lambda>(index, chunk) acc. reducer acc chunk index) (enumerate 0 chunks) (replicate n 0)
         = take n (concat (map chunk_bytes chunks))"
proof (rule nth_equalityI)
  show "length (fold (\<lambda>(index, chunk) acc. reducer acc chunk index) (enumerate 0 chunks)
      (replicate n 0)) = length (take n (concat (map chunk_bytes chunks)))"
    using assms by (simp add: length_fold_reducer length_concat_chunk_bytes)
next
  fix j
  assume "j < length (fold (\<lambda>(index, chunk) acc. reducer acc chunk index) (enumerate 0 chunks)
      (replicate n 0))"
  then have j: "j < n" by (simp add: length_fold_reducer)
  with assms show "fold (\<lambda>(index, chunk) acc. reducer acc chunk index) (enumerate 0 chunks)
      (replicate n 0) ! j = take n (concat (map chunk_bytes chunks)) ! j"
    by (simp add: nth_fold_reducer)
qed

subsection \<open>Chunks\<close>

lemma match_chunks_chunks4:
  "\<forall>c\<in>set s. \<not> lineTerminator c \<Longrightarrow> match_chunks s = chunks4 s"
  by (induction s rule: chunks4.induct) (simp_all add: Let_def)

lemma alphabet_not_lineTerminator: "c \<in> set alphabet \<Longrightarrow> \<not> lineTerminator c"
  by (auto simp: alphabet_def lineTerminator_def)

lemma match_chunks_alphabet: "set s \<subseteq> set alphabet \<Longrightarrow> match_chunks s = chunks4 s"
  by (rule match_chunks_chunks4) (auto dest: alphabet_not_lineTerminator)

lemma length_chunks4: "3 * length s div 4 \<le> 3 * length (chunks4 s)"
  by (induction s rule: chunks4.induct) simp_all

lemma chunks4_Nil_iff: "chunks4 s = [] \<longleftrightarrow> s = []"
  by (induction s rule: chunks4.induct) simp_all

lemma match_chunks_Nil_iff: "match_chunks s = [] \<longleftrightarrow> (\<forall>c\<in>set s. lineTerminator c)"
  by (induction s rule: match_chunks.induct) (auto simp: Let_def)

subsection \<open>Padding\<close>

lemma equals_not_in_alphabet: "CHR ''='' \<notin> set alphabet"
  by (simp add: alphabet_def)

lemma endsWith_append: "endsWith (body @ suf) suf"
  by (simp add: endsWith_def)

lemma endsWith_last: "endsWith s [c] \<longleftrightarrow> s \<noteq> [] \<and> last s = c"
proof (cases s rule: rev_cases)
  case Nil
  then show ?thesis by (simp add: endsWith_def)
next
  case (snoc ys y)
  then show ?thesis by (simp add: endsWith_def)
qed

lemma endsWith_two: "endsWith (ys @ [y]) [c, d] \<longleftrightarrow> endsWith ys [c] \<and> y = d"
proof (cases ys rule: rev_cases)
  case Nil
  then show ?thesis by (simp add: endsWith_def)
next
  case (snoc zs z)
  then show ?thesis by (simp add: endsWith_def)
qed

lemma not_endsWith_equals:
  assumes "set body \<subseteq> set alphabet"
  shows "\<not> endsWith body ''=''"
proof
  assume "endsWith body ''=''"
  then have "body \<noteq> []" and "last body = CHR ''=''"
    by (simp_all add: endsWith_last)
  then have "CHR ''='' \<in> set body"
    using last_in_set [of body] by simp
  with assms equals_not_in_alphabet show False by auto
qed

lemma strip_padding_plain:
  assumes "set body \<subseteq> set alphabet"
  shows "strip_padding body = body"
proof -
  have "\<not> endsWith body ''=''"
    using assms by (rule not_endsWith_equals)
  moreover have "\<not> endsWith body ''==''"
  proof (cases body rule: rev_cases)
    case Nil
    then show ?thesis by (simp add: endsWith_def)
  next
    case (snoc ys y)
    with assms equals_not_in_alphabet show ?thesis
      by (auto simp: endsWith_two)
  qed
  ultimately show ?thesis by (simp add: strip_padding_def)
qed

lemma strip_padding_one:
  assumes "set body \<subseteq> set alphabet"
  shows "strip_padding (body @ ''='') = body"
proof -
  have "\<not> endsWith body ''=''"
    using assms by (rule not_endsWith_equals)
  then have "\<not> endsWith (body @ ''='') ''==''"
    by (simp add: endsWith_two)
  moreover have "endsWith (body @ ''='') ''=''"
    by (rule endsWith_append)
  ultimately show ?thesis by (simp add: strip_padding_def)
qed

lemma strip_padding_two: "strip_padding (body @ ''=='') = body"
  using endsWith_append [of body "''==''"] by (simp add: strip_padding_def)

lemma strip_padding_pad:
  assumes "set body \<subseteq> set alphabet" and "pad \<in> {[], ''='', ''==''}"
  shows "strip_padding (body @ pad) = body"
  using assms strip_padding_plain strip_padding_one strip_padding_two by auto

subsection \<open>The decoder on the alphabet\<close>

lemma bufferFromBase64url_alt:
  "bufferFromBase64url s =
     (if match_chunks (strip_padding s) = [] then Inl TypeError
      else Inr (fold (\<lambda>(index, chunk) acc. reducer acc chunk index)
                 (enumerate 0 (match_chunks (strip_padding s)))
                 (replicate ((length (strip_padding s) * 3) div 4) 0)))"
  by (simp add: bufferFromBase64url_def Let_def split: list.splits)

lemma bufferFromBase64url_chunks:
  assumes "set (strip_padding s) \<subseteq> set alphabet" and "strip_padding s \<noteq> []"
  shows "bufferFromBase64url s =
    Inr (take (3 * length (strip_padding s) div 4)
          (concat (map chunk_bytes (chunks4 (strip_padding s)))))"
proof -
  have m: "match_chunks (strip_padding s) = chunks4 (strip_padding s)"
    using assms(1) by (rule match_chunks_alphabet)
  from assms(2) have ne: "chunks4 (strip_padding s) \<noteq> []"
    by (simp add: chunks4_Nil_iff)
  have "fold (\<lambda>(index, chunk) acc. reducer acc chunk index)
          (enumerate 0 (chunks4 (strip_padding s)))
          (replicate (3 * length (strip_padding s) div 4) 0)
        = take (3 * length (strip_padding s) div 4)
            (concat (map chunk_bytes (chunks4 (strip_padding s))))"
    by (rule fold_reducer_take) (rule length_chunks4)
  with ne show ?thesis
    by (simp add: bufferFromBase64url_alt m mult.commute)
qed

lemma decode_chunks4:
  "set s \<subseteq> set alphabet \<Longrightarrow>
     take (3 * length s div 4) (concat (map chunk_bytes (chunks4 s))) = decodeBase64Url_spec s"
proof (induction s rule: chunks4.induct)
  case (1 a b c d rest)
  then have ih: "take (3 * length rest div 4) (concat (map chunk_bytes (chunks4 rest)))
      = decodeBase64Url_spec rest"
    by simp
  from "1.prems" have cb: "chunk_bytes [a, b, c, d] =
    [of_nat (sextet a * 4 + sextet b div 16),
     of_nat ((sextet b mod 16) * 16 + sextet c div 4),
     of_nat ((sextet c mod 4) * 64 + sextet d)]"
    by (intro chunk_bytes_4) simp
  have len: "3 * length (a # b # c # d # rest) div 4 = Suc (Suc (Suc (3 * length rest div 4)))"
    by simp
  show ?case
    unfolding len using ih
    by (simp add: cb decodeBase64Url_spec_def)
next
  case (2 a b c)
  then have "chunk_bytes [a, b, c] =
    [of_nat (sextet a * 4 + sextet b div 16),
     of_nat ((sextet b mod 16) * 16 + sextet c div 4),
     of_nat ((sextet c mod 4) * 64)]"
    by (intro chunk_bytes_3) simp
  then show ?case by (simp add: decodeBase64Url_spec_def)
next
  case (3 a b)
  then have "chunk_bytes [a, b] =
    [of_nat (sextet a * 4 + sextet b div 16), of_nat ((sextet b mod 16) * 16), 0]"
    by (intro chunk_bytes_2) simp
  then show ?case by (simp add: decodeBase64Url_spec_def)
next
  case (4 a)
  then show ?case by (simp add: decodeBase64Url_spec_def)
next
  case 5
  then show ?case by (simp add: decodeBase64Url_spec_def)
qed

lemma bufferFromBase64url_spec:
  assumes "set body \<subseteq> set alphabet" and "body \<noteq> []" and "pad \<in> {[], ''='', ''==''}"
  shows "bufferFromBase64url (body @ pad) = Inr (decodeBase64Url_spec body)"
proof -
  from assms(1,3) have s: "strip_padding (body @ pad) = body"
    by (rule strip_padding_pad)
  with assms(1,2) show ?thesis
    using bufferFromBase64url_chunks [of "body @ pad"] decode_chunks4 [of body]
    by simp
qed

subsection \<open>The round trip\<close>

lemma encode_sextets_less:
  "\<forall>b\<in>set bs. b < 256 \<Longrightarrow> \<forall>v\<in>set (encode_sextets bs). v < 64"
  by (induction bs rule: encode_sextets.induct) auto

lemma sx1:
  fixes a b :: nat
  assumes "b < 256"
  shows "a div 4 * 4 + (a mod 4 * 16 + b div 16) div 16 = a"
proof -
  from assms have "b div 16 < 16" by simp
  then have "(a mod 4 * 16 + b div 16) div 16 = a mod 4" by simp
  then show ?thesis by simp
qed

lemma sx2:
  fixes a b c :: nat
  assumes "b < 256" "c < 256"
  shows "(a mod 4 * 16 + b div 16) mod 16 * 16 + (b mod 16 * 4 + c div 64) div 4 = b"
proof -
  from assms have "b div 16 < 16" "c div 64 < 4" by simp_all
  then have "(a mod 4 * 16 + b div 16) mod 16 = b div 16"
    and "(b mod 16 * 4 + c div 64) div 4 = b mod 16" by simp_all
  then show ?thesis by simp
qed

lemma sx3:
  fixes b c :: nat
  assumes "c < 256"
  shows "(b mod 16 * 4 + c div 64) mod 4 * 64 + c mod 64 = c"
proof -
  from assms have "c div 64 < 4" by simp
  then have "(b mod 16 * 4 + c div 64) mod 4 = c div 64" by simp
  then show ?thesis by simp
qed

lemma sx4:
  fixes a b :: nat
  assumes "b < 256"
  shows "(a mod 4 * 16 + b div 16) mod 16 * 16 + (b mod 16 * 4) div 4 = b"
proof -
  from assms have "b div 16 < 16" by simp
  then have "(a mod 4 * 16 + b div 16) mod 16 = b div 16" by simp
  then show ?thesis by simp
qed

lemma sx5:
  fixes a :: nat
  shows "a div 4 * 4 + (a mod 4 * 16) div 16 = a"
  by simp

lemma decode_encode_sextets:
  "\<forall>b\<in>set bs. b < 256 \<Longrightarrow> decode_sextets (encode_sextets bs) = bs"
proof (induction bs rule: encode_sextets.induct)
  case (1 a b c rest)
  then have "b < 256" "c < 256" by simp_all
  with 1 show ?case by (simp add: sx1 sx2 sx3)
next
  case (2 a b)
  then have "b < 256" by simp
  then show ?case by (simp add: sx1 sx4)
next
  case (3 a)
  show ?case by (simp add: sx5)
next
  case 4
  then show ?case by simp
qed

lemma unat_byte_less: "\<forall>b\<in>set (map unat (bs :: byte list)). b < 256"
proof -
  have "unat b < 256" for b :: byte
    using unsigned_less [of b, where 'a = nat] by simp
  then show ?thesis by simp
qed

lemma encodeBase64Url_alphabet: "set (encodeBase64Url bs) \<subseteq> set alphabet"
proof -
  have "\<forall>v\<in>set (encode_sextets (map unat bs)). v < 64"
    using unat_byte_less by (rule encode_sextets_less)
  then show ?thesis
    by (auto simp: encodeBase64Url_def length_alphabet)
qed

lemma encode_sextets_Nil_iff: "encode_sextets xs = [] \<longleftrightarrow> xs = []"
  by (cases xs rule: encode_sextets.cases) simp_all

lemma encodeBase64Url_Nil_iff: "encodeBase64Url bs = [] \<longleftrightarrow> bs = []"
  by (simp add: encodeBase64Url_def encode_sextets_Nil_iff)

lemma decode_encode_spec: "decodeBase64Url_spec (encodeBase64Url bs) = bs"
proof -
  have "\<forall>v\<in>set (encode_sextets (map unat bs)). v < 64"
    using unat_byte_less by (rule encode_sextets_less)
  then have "map sextet (encodeBase64Url bs) = encode_sextets (map unat bs)"
    by (simp add: encodeBase64Url_def sextet_nth map_idI)
  then have "decodeBase64Url_spec (encodeBase64Url bs) = map of_nat (map unat bs)"
    using decode_encode_sextets [OF unat_byte_less] by (simp add: decodeBase64Url_spec_def)
  then show ?thesis by (simp add: map_idI)
qed

subsection \<open>Characters outside the alphabet\<close>

lemma sextet_A: "sextet CHR ''A'' = 0"
  by (simp add: sextet_def alphabet_def)

lemma A_in_alphabet: "CHR ''A'' \<in> set alphabet"
  by (simp add: alphabet_def)

lemma foreign_as_A_alphabet: "set (map foreign_as_A s) \<subseteq> set alphabet"
  by (auto simp: foreign_as_A_def A_in_alphabet)

lemma ToInt32_foreign:
  "ToInt32 (map_get (charCodeAt (map foreign_as_A chunk) i)) = ToInt32 (map_get (charCodeAt chunk i))"
proof (cases "i < length chunk")
  case False
  then show ?thesis by (simp add: map_get_past)
next
  case True
  show ?thesis
  proof (cases "chunk ! i \<in> set alphabet")
    case True
    with \<open>i < length chunk\<close> show ?thesis
      by (simp add: charCodeAt_def foreign_as_A_def)
  next
    case False
    with \<open>i < length chunk\<close>
    have "map_get (charCodeAt chunk i) = None"
      by (simp add: map_get_other)
    moreover from False \<open>i < length chunk\<close>
    have "map_get (charCodeAt (map foreign_as_A chunk) i) = Some 0"
      by (simp add: map_get_char foreign_as_A_def A_in_alphabet sextet_A)
    ultimately show ?thesis by (simp add: ToInt32_def)
  qed
qed

lemma chunk_bytes_foreign: "chunk_bytes (map foreign_as_A chunk) = chunk_bytes chunk"
  by (simp add: chunk_bytes_def chunk_values_def ToInt32_foreign)

lemma chunks4_map: "chunks4 (map f s) = map (map f) (chunks4 s)"
  by (induction s rule: chunks4.induct) simp_all

lemma chunk_bytes_chunks4_foreign:
  "concat (map chunk_bytes (chunks4 (map foreign_as_A s))) = concat (map chunk_bytes (chunks4 s))"
  by (simp add: chunks4_map comp_def chunk_bytes_foreign)

lemma bufferFromBase64url_plain:
  assumes "\<forall>c\<in>set (strip_padding s). \<not> lineTerminator c" and "strip_padding s \<noteq> []"
  shows "bufferFromBase64url s =
    Inr (take (3 * length (strip_padding s) div 4)
          (concat (map chunk_bytes (chunks4 (strip_padding s)))))"
proof -
  have m: "match_chunks (strip_padding s) = chunks4 (strip_padding s)"
    using assms(1) by (rule match_chunks_chunks4)
  from assms(2) have ne: "chunks4 (strip_padding s) \<noteq> []"
    by (simp add: chunks4_Nil_iff)
  have "fold (\<lambda>(index, chunk) acc. reducer acc chunk index)
          (enumerate 0 (chunks4 (strip_padding s)))
          (replicate (3 * length (strip_padding s) div 4) 0)
        = take (3 * length (strip_padding s) div 4)
            (concat (map chunk_bytes (chunks4 (strip_padding s))))"
    by (rule fold_reducer_take) (rule length_chunks4)
  with ne show ?thesis
    by (simp add: bufferFromBase64url_alt m mult.commute)
qed

lemma decode_sextets_butlast:
  "length xs mod 4 = 1 \<Longrightarrow> decode_sextets xs = decode_sextets (butlast xs)"
  by (induction xs rule: decode_sextets.induct) auto

lemma decodeBase64Url_spec_butlast:
  "length s mod 4 = 1 \<Longrightarrow> decodeBase64Url_spec s = decodeBase64Url_spec (butlast s)"
  by (simp add: decodeBase64Url_spec_def decode_sextets_butlast map_butlast)

lemma bufferFromBase64url_foreign:
  assumes "\<forall>c\<in>set (strip_padding s). \<not> lineTerminator c" and "strip_padding s \<noteq> []"
  shows "bufferFromBase64url s = Inr (decodeBase64Url_spec (map foreign_as_A (strip_padding s)))"
proof -
  have "take (3 * length (map foreign_as_A (strip_padding s)) div 4)
          (concat (map chunk_bytes (chunks4 (map foreign_as_A (strip_padding s)))))
        = decodeBase64Url_spec (map foreign_as_A (strip_padding s))"
    by (rule decode_chunks4) (rule foreign_as_A_alphabet)
  then have "take (3 * length (strip_padding s) div 4)
          (concat (map chunk_bytes (chunks4 (strip_padding s))))
        = decodeBase64Url_spec (map foreign_as_A (strip_padding s))"
    by (simp add: chunk_bytes_chunks4_foreign)
  with bufferFromBase64url_plain [OF assms] show ?thesis by simp
qed

subsection \<open>The decoder on concrete strings\<close>

lemma length_chunks4_eq: "length (chunks4 s) = (length s + 3) div 4"
  by (induction s rule: chunks4.induct) simp_all

lemma strip_QUJDRA_padded: "strip_padding ''QUJDRA=='' = ''QUJDRA''"
  by code_simp

lemma alphabet_QUJDRA: "set ''QUJDRA'' \<subseteq> set alphabet"
  by (simp add: alphabet_def)

lemma encode_ABCD: "encodeBase64Url [65, 66, 67, 68] = ''QUJDRA''"
  by code_simp

lemma chunks_QUJDRA:
  "concat (map chunk_bytes (match_chunks ''QUJDRA'')) = [65, 66, 67, 68, 0, 0]"
  by code_simp


subsection \<open>The claims about the decoder\<close>

text \<open>
  Claim C9. Let the input, once at most two trailing \<^verbatim>\<open>=\<close> are removed, be a non-empty
  string of \<open>n\<close> characters of the alphabet, \<open>n mod 4 \<noteq> 1\<close>. The decoder returns an
  array of exactly \<open>3 * n div 4\<close> bytes. Every chunk writes three bytes; the array holds
  the first \<open>3 * n div 4\<close> of them, and what is cut off was written by the last chunk.
\<close>

theorem decoded_length:
  assumes "set (strip_padding s) \<subseteq> set alphabet"
    and "strip_padding s \<noteq> []"
    and "length (strip_padding s) mod 4 \<noteq> 1"
  shows "bufferFromBase64url s =
      Inr (take (3 * length (strip_padding s) div 4)
            (concat (map chunk_bytes (match_chunks (strip_padding s)))))
    \<and> length (take (3 * length (strip_padding s) div 4)
            (concat (map chunk_bytes (match_chunks (strip_padding s)))))
        = 3 * length (strip_padding s) div 4
    \<and> length (concat (map chunk_bytes (match_chunks (strip_padding s))))
        = 3 * length (match_chunks (strip_padding s))
    \<and> 3 * (length (match_chunks (strip_padding s)) - 1) \<le> 3 * length (strip_padding s) div 4"
proof -
  have m: "match_chunks (strip_padding s) = chunks4 (strip_padding s)"
    using assms(1) by (rule match_chunks_alphabet)
  have "3 * length (strip_padding s) div 4 \<le> 3 * length (chunks4 (strip_padding s))"
    by (rule length_chunks4)
  moreover have "3 * (length (chunks4 (strip_padding s)) - 1) \<le> 3 * length (strip_padding s) div 4"
    unfolding length_chunks4_eq by linarith
  ultimately show ?thesis
    using bufferFromBase64url_chunks [OF assms(1,2)]
    by (simp add: m length_concat_chunk_bytes)
qed

theorem decoded_length_witness:
  "set (strip_padding ''QUJDRA=='') \<subseteq> set alphabet
   \<and> strip_padding ''QUJDRA=='' = ''QUJDRA''
   \<and> length ''QUJDRA'' mod 4 \<noteq> 1
   \<and> bufferFromBase64url ''QUJDRA=='' = Inr (take 4 [65, 66, 67, 68, 0, 0])
   \<and> 3 * length ''QUJDRA'' div 4 = 4"
proof -
  have h: "set (strip_padding ''QUJDRA=='') \<subseteq> set alphabet"
    "strip_padding ''QUJDRA=='' \<noteq> []" "length (strip_padding ''QUJDRA=='') mod 4 \<noteq> 1"
    using alphabet_QUJDRA by (simp_all add: strip_QUJDRA_padded)
  from decoded_length [OF h]
  have "bufferFromBase64url ''QUJDRA=='' =
      Inr (take (3 * length (strip_padding ''QUJDRA=='') div 4)
            (concat (map chunk_bytes (match_chunks (strip_padding ''QUJDRA=='')))))"
    by (rule conjunct1)
  then have "bufferFromBase64url ''QUJDRA=='' = Inr (take 4 [65, 66, 67, 68, 0, 0])"
    unfolding strip_QUJDRA_padded chunks_QUJDRA by simp
  with h(1) show ?thesis
    by (simp add: strip_QUJDRA_padded)
qed

text \<open>
  Claim C4. The code does not do this for the empty byte sequence: its encoding is the
  empty string, on which \<^verbatim>\<open>match\<close> gives \<^verbatim>\<open>null\<close>, against the non-null assertion of the
  source, and the call of \<^verbatim>\<open>reduce\<close> throws a \<^verbatim>\<open>TypeError\<close> where the claim has the empty
  sequence returned.
\<close>

theorem roundtrip_empty_fails:
  "bufferFromBase64url (encodeBase64Url []) = Inl TypeError
   \<and> bufferFromBase64url (encodeBase64Url []) \<noteq> Inr []"
  by (simp add: encodeBase64Url_def bufferFromBase64url_alt strip_padding_def endsWith_def)

text \<open>
  For every byte sequence that is not empty, decoding its unpadded base64url encoding
  returns exactly that sequence.
\<close>

lemma roundtrip_nonempty:
  assumes "bs \<noteq> []"
  shows "bufferFromBase64url (encodeBase64Url bs) = Inr bs"
proof -
  from assms have "encodeBase64Url bs \<noteq> []"
    by (simp add: encodeBase64Url_Nil_iff)
  then have "bufferFromBase64url (encodeBase64Url bs @ []) = Inr (decodeBase64Url_spec (encodeBase64Url bs))"
    using encodeBase64Url_alphabet by (intro bufferFromBase64url_spec) simp_all
  then show ?thesis by (simp add: decode_encode_spec)
qed

text \<open>
  Claim C3, as stated, fails: the decoder checks nothing. A character outside the
  alphabet (\<^verbatim>\<open>*\<close>) is decoded like \<^verbatim>\<open>A\<close>, and an input of five characters (a length that is
  1 modulo 4) is decoded to the three bytes of its first four characters.
\<close>

theorem no_validation_counterexample:
  "bufferFromBase64url ''QU*D'' = Inr [65, 64, 3]
   \<and> bufferFromBase64url ''QUJDR'' = Inr [65, 66, 67]"
  by code_simp

text \<open>
  Claim C3, amended. The decoder removes one or two trailing \<^verbatim>\<open>=\<close> and validates nothing.
  Whenever a character other than a line terminator is left, it returns
  \<open>3 * n div 4\<close> bytes for the \<open>n\<close> characters left. When what is left is not empty and
  holds no line terminator, these are the bytes that the base64url decoding gives
  once each character outside the alphabet is taken for \<^verbatim>\<open>A\<close> (the 6-bit value 0); a
  single character left over by a length that is 1 modulo 4 is ignored. So on a
  non-empty string over the alphabet, followed by no, one or two \<^verbatim>\<open>=\<close>, the decoder
  returns the decoded bytes.
\<close>

theorem decoder_no_validation:
  "((\<exists>c\<in>set (strip_padding s). \<not> lineTerminator c) \<longrightarrow>
      (\<exists>bytes. bufferFromBase64url s = Inr bytes
         \<and> length bytes = 3 * length (strip_padding s) div 4))
   \<and> (strip_padding s \<noteq> [] \<and> (\<forall>c\<in>set (strip_padding s). \<not> lineTerminator c) \<longrightarrow>
      bufferFromBase64url s = Inr (decodeBase64Url_spec (map foreign_as_A (strip_padding s))))
   \<and> (length (strip_padding s) mod 4 = 1 \<and> (\<forall>c\<in>set (strip_padding s). \<not> lineTerminator c) \<longrightarrow>
      bufferFromBase64url s =
        Inr (decodeBase64Url_spec (map foreign_as_A (butlast (strip_padding s)))))
   \<and> (set body \<subseteq> set alphabet \<and> body \<noteq> [] \<and> pad \<in> {[], ''='', ''==''} \<longrightarrow>
      bufferFromBase64url (body @ pad) = Inr (decodeBase64Url_spec body))"
proof -
  have returns: "\<exists>bytes. bufferFromBase64url s = Inr bytes
         \<and> length bytes = 3 * length (strip_padding s) div 4"
    if "\<exists>c\<in>set (strip_padding s). \<not> lineTerminator c"
  proof -
    from that have "match_chunks (strip_padding s) \<noteq> []"
      by (simp add: match_chunks_Nil_iff)
    then show ?thesis
      by (simp add: bufferFromBase64url_alt length_fold_reducer mult.commute)
  qed
  have foreign: "bufferFromBase64url s = Inr (decodeBase64Url_spec (map foreign_as_A (strip_padding s)))"
    if "strip_padding s \<noteq> []" "\<forall>c\<in>set (strip_padding s). \<not> lineTerminator c"
    using that(2,1) by (rule bufferFromBase64url_foreign)
  have decodes: "bufferFromBase64url (body @ pad) = Inr (decodeBase64Url_spec body)"
    if "set body \<subseteq> set alphabet" "body \<noteq> []" "pad \<in> {[], ''='', ''==''}"
    using that by (rule bufferFromBase64url_spec)
  have single: "bufferFromBase64url s =
        Inr (decodeBase64Url_spec (map foreign_as_A (butlast (strip_padding s))))"
    if "length (strip_padding s) mod 4 = 1" "\<forall>c\<in>set (strip_padding s). \<not> lineTerminator c"
  proof -
    from that(1) have "strip_padding s \<noteq> []" by auto
    then have "bufferFromBase64url s = Inr (decodeBase64Url_spec (map foreign_as_A (strip_padding s)))"
      using that(2) by (rule foreign)
    moreover from that(1)
    have "decodeBase64Url_spec (map foreign_as_A (strip_padding s)) =
        decodeBase64Url_spec (butlast (map foreign_as_A (strip_padding s)))"
      by (intro decodeBase64Url_spec_butlast) simp
    ultimately show ?thesis by (simp add: map_butlast)
  qed
  from returns foreign single decodes show ?thesis by blast
qed

theorem decoder_no_validation_witness:
  "bufferFromBase64url ''QUJDRA=='' = Inr (decodeBase64Url_spec ''QUJDRA'')
   \<and> decodeBase64Url_spec ''QUJDRA'' = [65, 66, 67, 68]
   \<and> strip_padding ''QU*D='' = ''QU*D''
   \<and> map foreign_as_A ''QU*D'' = ''QUAD''
   \<and> bufferFromBase64url ''QU*D='' = Inr (decodeBase64Url_spec ''QUAD'')
   \<and> decodeBase64Url_spec ''QUAD'' = [65, 64, 3]
   \<and> (\<exists>bytes. bufferFromBase64url ''QU*D='' = Inr bytes \<and> length bytes = 3)
   \<and> bufferFromBase64url ''QUJDR'' = Inr (decodeBase64Url_spec ''QUJD'')
   \<and> decodeBase64Url_spec ''QUJD'' = [65, 66, 67]"
proof -
  have h1: "set ''QUJDRA'' \<subseteq> set alphabet \<and> ''QUJDRA'' \<noteq> [] \<and> ''=='' \<in> {[], ''='', ''==''}"
    using alphabet_QUJDRA by simp
  have h2: "strip_padding ''QU*D='' = ''QU*D''"
    by (simp add: strip_padding_def endsWith_def)
  have h3: "strip_padding ''QU*D='' \<noteq> [] \<and> (\<forall>c\<in>set (strip_padding ''QU*D=''). \<not> lineTerminator c)"
    by (simp add: h2 lineTerminator_def)
  have h4: "map foreign_as_A ''QU*D'' = ''QUAD''"
    by (simp add: foreign_as_A_def alphabet_def)
  have h5: "decodeBase64Url_spec ''QUJDRA'' = [65, 66, 67, 68]"
    by code_simp
  have h6: "decodeBase64Url_spec ''QUAD'' = [65, 64, 3]"
    by code_simp
  have h7: "strip_padding ''QUJDR'' = ''QUJDR''"
    by (simp add: strip_padding_def endsWith_def)
  have h8: "length (strip_padding ''QUJDR'') mod 4 = 1
      \<and> (\<forall>c\<in>set (strip_padding ''QUJDR''). \<not> lineTerminator c)"
    by (simp add: h7 lineTerminator_def)
  have h9: "map foreign_as_A ''QUJD'' = ''QUJD''"
    by (simp add: foreign_as_A_def alphabet_def)
  have h10: "decodeBase64Url_spec ''QUJD'' = [65, 66, 67]"
    by code_simp
  from h1 h3 decoder_no_validation [of "''QU*D=''" "''QUJDRA''" "''==''"]
  have "bufferFromBase64url ''QUJDRA=='' = Inr (decodeBase64Url_spec ''QUJDRA'')"
    and "bufferFromBase64url ''QU*D='' = Inr (decodeBase64Url_spec (map foreign_as_A (strip_padding ''QU*D='')))"
    and "\<exists>bytes. bufferFromBase64url ''QU*D='' = Inr bytes
      \<and> length bytes = 3 * length (strip_padding ''QU*D='') div 4"
    by auto
  moreover from h8 decoder_no_validation [of "''QUJDR''" "''QUJDRA''" "''==''"]
  have "bufferFromBase64url ''QUJDR'' =
      Inr (decodeBase64Url_spec (map foreign_as_A (butlast (strip_padding ''QUJDR''))))"
    by blast
  ultimately show ?thesis using h2 h4 h5 h6 h7 h9 h10 by simp
qed

end
